theory Spec2Isabelle
  imports Main "HOL-Library.Word"
begin

section \<open>The C data of \<^verbatim>\<open>examples/welcome.c\<close>\<close>

text \<open>
  The program is one function, \<^verbatim>\<open>main\<close>:
  \<^verbatim>\<open>
  void main() {
    char name[100];
    int i = 0;

    puts("What is your name?\n");
    while ((name[i] = getchar()) != -1 && name[i] != '\n') i += 1;
    name[i] = '\0';
    printf("Hello, %s\n", name);
  }
  \<close>
  A \<^verbatim>\<open>char\<close> is an 8-bit word and an \<^verbatim>\<open>int\<close> a 32-bit word. Plain \<^verbatim>\<open>char\<close> is
  taken as the signed type, as on x86: an \<^verbatim>\<open>int\<close> assigned to a \<^verbatim>\<open>char\<close> keeps its
  low 8 bits, and a \<^verbatim>\<open>char\<close> used in a comparison is sign-extended to an \<^verbatim>\<open>int\<close>.
  \<^verbatim>\<open>puts\<close>, \<^verbatim>\<open>getchar\<close> and \<^verbatim>\<open>printf\<close> are the functions of the C standard library.
\<close>

type_synonym byte = "8 word"
type_synonym c_char = "8 word"
type_synonym c_int = "32 word"

definition int_to_char :: "c_int \<Rightarrow> c_char" where
  "int_to_char c = ucast c"

definition char_to_int :: "c_char \<Rightarrow> c_int" where
  "char_to_int v = scast v"

definition bytes :: "string \<Rightarrow> byte list" where
  "bytes s = map of_char s"

subsection \<open>The array \<^verbatim>\<open>name\<close>\<close>

text \<open>
  \<^verbatim>\<open>char name[100]\<close> is a store from indices to cells. It is not initialised, so its
  first contents are whatever the stack held: a parameter of the run. An access is
  within the array when the index is in \<open>0..99\<close>; any other access is undefined
  behaviour in C and the error \<open>OutOfBounds\<close> here.
\<close>

type_synonym cells = "nat \<Rightarrow> c_char"

datatype error = OutOfBounds int

definition in_bounds :: "c_int \<Rightarrow> bool" where
  "in_bounds i \<longleftrightarrow> 0 \<le>s i \<and> i <s 100"

definition store :: "cells \<Rightarrow> c_int \<Rightarrow> c_char \<Rightarrow> error + cells" where
  "store a i v = (if in_bounds i then Inr (a(unat i := v)) else Inl (OutOfBounds (sint i)))"

definition load :: "cells \<Rightarrow> c_int \<Rightarrow> error + c_char" where
  "load a i = (if in_bounds i then Inr (a (unat i)) else Inl (OutOfBounds (sint i)))"

text \<open>
  The string a \<^verbatim>\<open>char *\<close> argument denotes: the cells from index \<open>k\<close> up to the first
  NUL. Scanning past the last cell of the array is out of bounds.
\<close>

function c_string :: "cells \<Rightarrow> nat \<Rightarrow> error + byte list" where
  "c_string a k =
     (if 100 \<le> k then Inl (OutOfBounds (int k))
      else if a k = 0 then Inr []
      else (case c_string a (Suc k) of Inl e \<Rightarrow> Inl e | Inr s \<Rightarrow> Inr (a k # s)))"
  by pat_completeness auto
termination
  by (relation "measure (\<lambda>(a, k). 100 - k)") auto

declare c_string.simps [simp del]

subsection \<open>Standard input and output\<close>

text \<open>
  The world of a run is the unread rest of standard input and the log of the calls
  made so far, oldest first: each write with the bytes it wrote, each read with the
  byte it consumed (\<open>None\<close> at end-of-input).
\<close>

datatype event = Wrote "byte list" | Read "byte option"

record world =
  stdin :: "byte list"
  trace :: "event list"

fun written :: "event \<Rightarrow> byte list" where
  "written (Wrote bs) = bs"
| "written (Read b) = []"

definition stdout :: "world \<Rightarrow> byte list" where
  "stdout w = concat (map written (trace w))"

text \<open>
  \<^verbatim>\<open>getchar()\<close> returns the next byte as an \<^verbatim>\<open>int\<close> in \<open>0..255\<close>, or \<open>-1\<close> at
  end-of-input, where it consumes nothing.
\<close>

definition getchar :: "world \<Rightarrow> c_int \<times> world" where
  "getchar w =
     (case stdin w of
        [] \<Rightarrow> (- 1, w\<lparr>trace := trace w @ [Read None]\<rparr>)
      | b # bs \<Rightarrow> (ucast b, w\<lparr>stdin := bs, trace := trace w @ [Read (Some b)]\<rparr>))"

text \<open>\<^verbatim>\<open>puts(s)\<close> writes the string and then a newline.\<close>

definition puts :: "string \<Rightarrow> world \<Rightarrow> world" where
  "puts s w = w\<lparr>trace := trace w @ [Wrote (bytes s @ [10])]\<rparr>"

text \<open>
  \<^verbatim>\<open>printf(fmt, s)\<close> with one string argument: the format is copied, each \<^verbatim>\<open>%s\<close> is
  replaced by the argument.
\<close>

fun format :: "string \<Rightarrow> byte list \<Rightarrow> byte list" where
  "format [] arg = []"
| "format [c] arg = [of_char c]"
| "format (c # d # fs) arg =
     (if c = CHR ''%'' \<and> d = CHR ''s'' then arg @ format fs arg
      else of_char c # format (d # fs) arg)"

definition printf :: "string \<Rightarrow> cells \<Rightarrow> world \<Rightarrow> error + world" where
  "printf fmt a w =
     (case c_string a 0 of
        Inl e \<Rightarrow> Inl e
      | Inr s \<Rightarrow> Inr (w\<lparr>trace := trace w @ [Wrote (format fmt s)]\<rparr>))"

section \<open>The function \<^verbatim>\<open>main\<close>\<close>

text \<open>
  The loop of line 12. Each round calls \<^verbatim>\<open>getchar\<close>, stores the result in
  \<^verbatim>\<open>name[i]\<close>, compares the stored \<^verbatim>\<open>char\<close> with \<open>-1\<close>, then reads \<^verbatim>\<open>name[i]\<close>
  again and compares it with the newline; when both differ, \<open>i\<close> grows by one and the
  loop goes round again.
\<close>

function read_loop :: "cells \<times> c_int \<times> world \<Rightarrow> error + cells \<times> c_int \<times> world" where
  "read_loop (name, i, w) =
     (case getchar w of (c, w') \<Rightarrow>
        (case store name i (int_to_char c) of
           Inl e \<Rightarrow> Inl e
         | Inr name' \<Rightarrow>
             if char_to_int (int_to_char c) \<noteq> - 1 then
               (case load name' i of
                  Inl e \<Rightarrow> Inl e
                | Inr v \<Rightarrow>
                    if char_to_int v \<noteq> 10 then read_loop (name', i + 1, w')
                    else Inr (name', i, w'))
             else Inr (name', i, w')))"
  by pat_completeness auto
termination
proof (relation "measure (\<lambda>(name, i, w). 100 - unat i)")
  show "wf (measure (\<lambda>(name, i, w). 100 - unat i))"
    by simp
next
  fix name :: cells and i :: c_int and w :: world
  fix x :: "c_int \<times> world" and c w' name' v
  assume "store name i (int_to_char c) = Inr name'"
  then have "in_bounds i"
    by (simp add: store_def split: if_splits)
  then have s: "0 \<le> sint i" "sint i < 100"
    by (simp_all add: in_bounds_def word_sle_eq word_sless_alt)
  have "uint i = take_bit 32 (sint i)"
    by (simp add: uint_sint)
  also have "\<dots> = sint i"
    using s by (simp add: take_bit_int_eq_self)
  finally have "uint i < 100"
    using s by simp
  then have "nat (uint i) < 100"
    by linarith
  then have u: "unat i < 100"
    by (simp only: unat_eq_nat_uint)
  then have "unat (i + 1) = unat i + 1"
    by (simp add: unat_word_ariths)
  with u show "((name', i + 1, w'), (name, i, w)) \<in> measure (\<lambda>(name, i, w). 100 - unat i)"
    by simp
qed

declare read_loop.simps [simp del]

text \<open>
  \<^verbatim>\<open>main\<close>, step by step: the world after the prompt of line 11, the state at the
  end of the loop of line 12, the state after the store of line 13, and the whole body
  with the \<^verbatim>\<open>printf\<close> of line 14. \<open>garbage\<close> is what \<^verbatim>\<open>name\<close> holds at its
  declaration, \<open>inp\<close> is standard input.
\<close>

definition main_prompt :: "byte list \<Rightarrow> world" where
  "main_prompt inp = puts ''What is your name?\<newline>'' \<lparr>stdin = inp, trace = []\<rparr>"

definition main_read :: "cells \<Rightarrow> byte list \<Rightarrow> error + cells \<times> c_int \<times> world" where
  "main_read garbage inp = read_loop (garbage, 0, main_prompt inp)"

definition main_terminated :: "cells \<Rightarrow> byte list \<Rightarrow> error + cells \<times> c_int \<times> world" where
  "main_terminated garbage inp =
     (case main_read garbage inp of
        Inl e \<Rightarrow> Inl e
      | Inr (name, i, w) \<Rightarrow>
          (case store name i 0 of
             Inl e \<Rightarrow> Inl e
           | Inr name' \<Rightarrow> Inr (name', i, w)))"

definition main :: "cells \<Rightarrow> byte list \<Rightarrow> error + world" where
  "main garbage inp =
     (case main_terminated garbage inp of
        Inl e \<Rightarrow> Inl e
      | Inr (name, i, w) \<Rightarrow> printf ''Hello, %s\<newline>'' name w)"

text \<open>
  What a run shows from outside: the bytes on standard output when \<^verbatim>\<open>main\<close> returns
  (or the error), and the bytes of its last write.
\<close>

definition main_stdout :: "cells \<Rightarrow> byte list \<Rightarrow> error + byte list" where
  "main_stdout garbage inp = map_sum id stdout (main garbage inp)"

definition greeting :: "error + world \<Rightarrow> byte list option" where
  "greeting r =
     (case r of
        Inl e \<Rightarrow> None
      | Inr w \<Rightarrow> (case rev (trace w) of Wrote bs # es \<Rightarrow> Some bs | _ \<Rightarrow> None))"

subsection \<open>The run without the bounds test\<close>

text \<open>
  Line 12 itself has no test on \<open>i\<close>. \<open>read_loop\<close> above stops at a store outside
  \<^verbatim>\<open>name\<close>, where C leaves the run undefined. The functions below are the same loop and
  the same \<^verbatim>\<open>printf\<close> as the statements are written and as the compiled program runs
  them: a store to \<^verbatim>\<open>name[i]\<close> with \<open>i\<close> past 99 lands in the bytes that follow the
  array, which the cells from index 100 on stand for, and the scan of \<^verbatim>\<open>%s\<close> goes on
  until it meets a NUL. A scan that meets none does not return: the value \<open>None\<close>.
\<close>

function read_loop_unchecked :: "cells \<times> c_int \<times> world \<Rightarrow> cells \<times> c_int \<times> world" where
  "read_loop_unchecked (name, i, w) =
     (case getchar w of (c, w') \<Rightarrow>
        if char_to_int (int_to_char c) \<noteq> - 1 \<and>
           char_to_int ((name(unat i := int_to_char c)) (unat i)) \<noteq> 10
        then read_loop_unchecked (name(unat i := int_to_char c), i + 1, w')
        else (name(unat i := int_to_char c), i, w'))"
  by pat_completeness auto
termination
proof (relation "measure (\<lambda>(name, i, w). length (stdin w))")
  show "wf (measure (\<lambda>(name, i, w). length (stdin w)))"
    by simp
next
  fix name :: cells and i :: c_int and w w' :: world and c :: c_int
  assume got: "(c, w') = getchar w"
    and more: "char_to_int (int_to_char c) \<noteq> - 1 \<and>
      char_to_int ((name(unat i := int_to_char c)) (unat i)) \<noteq> 10"
  have "char_to_int (int_to_char (- 1)) = - 1"
    unfolding char_to_int_def int_to_char_def by code_simp
  with got more obtain b where "stdin w = b # stdin w'"
    by (cases "stdin w") (auto simp: getchar_def)
  then show "((name(unat i := int_to_char c), i + 1, w'), (name, i, w))
      \<in> measure (\<lambda>(name, i, w). length (stdin w))"
    by simp
qed

declare read_loop_unchecked.simps [simp del]

partial_function (option) c_string_unchecked :: "cells \<Rightarrow> nat \<Rightarrow> byte list option" where
  "c_string_unchecked a k =
     (if a k = 0 then Some []
      else Option.bind (c_string_unchecked a (Suc k)) (\<lambda>s. Some (a k # s)))"

definition printf_unchecked :: "string \<Rightarrow> cells \<Rightarrow> world \<Rightarrow> world option" where
  "printf_unchecked fmt a w =
     (case c_string_unchecked a 0 of
        None \<Rightarrow> None
      | Some s \<Rightarrow> Some (w\<lparr>trace := trace w @ [Wrote (format fmt s)]\<rparr>))"

definition main_unchecked :: "cells \<Rightarrow> byte list \<Rightarrow> world option" where
  "main_unchecked garbage inp =
     (case read_loop_unchecked (garbage, 0, main_prompt inp) of
        (name, i, w) \<Rightarrow> printf_unchecked ''Hello, %s\<newline>'' (name(unat i := 0)) w)"

section \<open>What the loop reads, as functions of the input\<close>

text \<open>
  The loop stops at a byte that the signed \<^verbatim>\<open>char\<close> makes equal to the newline or to
  \<open>-1\<close>: the bytes 10 and 255.
\<close>

definition ends_line :: "byte \<Rightarrow> bool" where
  "ends_line b \<longleftrightarrow> b = 10 \<or> b = 255"

text \<open>
  The bytes stored before the loop stops, the value stored last (the stopping byte,
  or 255 for the \<open>-1\<close> of end-of-input), the input left unread, and the reads made.
\<close>

fun line_read :: "byte list \<Rightarrow> byte list" where
  "line_read [] = []"
| "line_read (b # bs) = (if ends_line b then [] else b # line_read bs)"

fun last_stored :: "byte list \<Rightarrow> c_char" where
  "last_stored [] = 255"
| "last_stored (b # bs) = (if ends_line b then b else last_stored bs)"

fun unread :: "byte list \<Rightarrow> byte list" where
  "unread [] = []"
| "unread (b # bs) = (if ends_line b then bs else unread bs)"

fun reads :: "byte list \<Rightarrow> event list" where
  "reads [] = [Read None]"
| "reads (b # bs) = Read (Some b) # (if ends_line b then [] else reads bs)"

text \<open>The cells after storing \<open>bs\<close> from index \<open>n\<close> on.\<close>

fun fill :: "cells \<Rightarrow> nat \<Rightarrow> c_char list \<Rightarrow> cells" where
  "fill a n [] = a"
| "fill a n (b # bs) = fill (a(n := b)) (Suc n) bs"

text \<open>
  The words of the specification: the line is what comes before the first newline, or
  the whole input when it has none; the prefix that ends with the first newline.
\<close>

definition first_line :: "byte list \<Rightarrow> byte list" where
  "first_line inp = takeWhile (\<lambda>b. b \<noteq> 10) inp"

definition line_prefix :: "byte list \<Rightarrow> byte list" where
  "line_prefix inp = takeWhile (\<lambda>b. b \<noteq> 10) inp @ take 1 (dropWhile (\<lambda>b. b \<noteq> 10) inp)"

section \<open>Facts about the words, the cells and the loop\<close>

lemma index_unat: "n \<le> 100 \<Longrightarrow> unat (of_nat n :: c_int) = n"
  by (simp add: unat_of_nat)

lemma index_sint: "n \<le> 100 \<Longrightarrow> sint (of_nat n :: c_int) = int n"
  by (simp add: signed_of_nat signed_take_bit_int_eq_self)

lemma in_bounds_index: "n \<le> 100 \<Longrightarrow> in_bounds (of_nat n) \<longleftrightarrow> n < 100"
  by (simp add: in_bounds_def word_sle_eq word_sless_alt index_sint)

lemma up8: "is_up (ucast :: byte \<Rightarrow> c_int)" "is_up (scast :: byte \<Rightarrow> c_int)"
  by (simp_all add: is_up)

lemma stored_byte: "int_to_char (ucast (b :: byte)) = b"
  by (simp add: int_to_char_def ucast_up_ucast_id up8)

lemma scast_inj: "(scast (b :: byte) :: c_int) = scast c \<Longrightarrow> b = c"
proof -
  assume "(scast b :: c_int) = scast c"
  then have "sint (scast b :: c_int) = sint (scast c :: c_int)" by simp
  then have "sint b = sint c" by (simp add: sint_up_scast up8)
  then show "b = c" by (rule signed_word_eqI)
qed

lemma byte_is_eof: "char_to_int b = - 1 \<longleftrightarrow> b = 255"
proof
  assume "char_to_int b = - 1"
  then have "(scast b :: c_int) = scast (255 :: byte)" by (simp add: char_to_int_def)
  then show "b = 255" by (rule scast_inj)
qed (simp add: char_to_int_def)

lemma byte_is_newline: "char_to_int b = 10 \<longleftrightarrow> b = 10"
proof
  assume "char_to_int b = 10"
  then have "(scast b :: c_int) = scast (10 :: byte)" by (simp add: char_to_int_def)
  then show "b = 10" by (rule scast_inj)
qed (simp add: char_to_int_def)

lemma stored_eof: "int_to_char (- 1) = 255"
  unfolding int_to_char_def by code_simp

lemma stored_stop: "int_to_char 255 = 255" "int_to_char 10 = 10"
  using stored_byte [of 255] stored_byte [of 10] by simp_all


lemma read_loop_full: "read_loop (a, of_nat 100, w) = Inl (OutOfBounds 100)"
  by (subst read_loop.simps)
     (simp add: getchar_def store_def in_bounds_def split: list.split prod.split)

lemma store_index: "n < 100 \<Longrightarrow> store a (of_nat n) v = Inr (a(n := v))"
  by (simp add: store_def in_bounds_index index_unat)

lemma load_index: "n < 100 \<Longrightarrow> load a (of_nat n) = Inr (a n)"
  by (simp add: load_def in_bounds_index index_unat)

lemma read_loop_eof:
  assumes "n < 100"
  shows "read_loop (a, of_nat n, \<lparr>stdin = [], trace = tr\<rparr>) =
         Inr (a(n := 255), of_nat n, \<lparr>stdin = [], trace = tr @ [Read None]\<rparr>)"
  using assms
  by (subst read_loop.simps)
     (simp add: getchar_def store_index stored_eof byte_is_eof)

lemma read_loop_byte:
  assumes "n < 100"
  shows "read_loop (a, of_nat n, \<lparr>stdin = b # bs, trace = tr\<rparr>) =
         (if ends_line b
          then Inr (a(n := b), of_nat n, \<lparr>stdin = bs, trace = tr @ [Read (Some b)]\<rparr>)
          else read_loop (a(n := b), of_nat n + 1,
                 \<lparr>stdin = bs, trace = tr @ [Read (Some b)]\<rparr>))"
proof -
  have "read_loop (a, of_nat n, \<lparr>stdin = b # bs, trace = tr\<rparr>) =
        (if b \<noteq> 255 then
           if b \<noteq> 10
           then read_loop (a(n := b), of_nat n + 1, \<lparr>stdin = bs, trace = tr @ [Read (Some b)]\<rparr>)
           else Inr (a(n := b), of_nat n, \<lparr>stdin = bs, trace = tr @ [Read (Some b)]\<rparr>)
         else Inr (a(n := b), of_nat n, \<lparr>stdin = bs, trace = tr @ [Read (Some b)]\<rparr>))"
    using assms
    by (subst read_loop.simps)
       (simp add: getchar_def store_index load_index stored_byte stored_stop byte_is_eof
          byte_is_newline)
  then show ?thesis
    by (simp add: ends_line_def)
qed

lemma read_loop_stop:
  assumes "n < 100" and "ends_line b"
  shows "read_loop (a, of_nat n, \<lparr>stdin = b # bs, trace = tr\<rparr>) =
         Inr (a(n := b), of_nat n, \<lparr>stdin = bs, trace = tr @ [Read (Some b)]\<rparr>)"
  using assms by (simp add: read_loop_byte)

lemma read_loop_step:
  assumes "n < 100" and "\<not> ends_line b"
  shows "read_loop (a, of_nat n, \<lparr>stdin = b # bs, trace = tr\<rparr>) =
         read_loop (a(n := b), of_nat (Suc n), \<lparr>stdin = bs, trace = tr @ [Read (Some b)]\<rparr>)"
  using assms by (simp add: read_loop_byte add.commute)

lemma read_loop_run:
  "n + length (line_read inp) < 100 \<Longrightarrow>
   read_loop (a, of_nat n, \<lparr>stdin = inp, trace = tr\<rparr>) =
   Inr (fill a n (line_read inp @ [last_stored inp]), of_nat (n + length (line_read inp)),
        \<lparr>stdin = unread inp, trace = tr @ reads inp\<rparr>)"
proof (induction inp arbitrary: a n tr)
  case Nil
  then show ?case by (simp add: read_loop_eof del: fun_upd_apply)
next
  case (Cons b bs)
  show ?case
  proof (cases "ends_line b")
    case True
    with Cons.prems show ?thesis by (simp add: read_loop_stop del: fun_upd_apply)
  next
    case False
    with Cons.prems have "Suc n + length (line_read bs) < 100" and "n < 100"
      by simp_all
    with False Cons.IH [of "Suc n" "a(n := b)" "tr @ [Read (Some b)]"] show ?thesis
      by (simp add: read_loop_step del: fun_upd_apply)
  qed
qed

lemma read_loop_overflow:
  "n \<le> 100 \<Longrightarrow> 100 \<le> n + length (line_read inp) \<Longrightarrow>
   read_loop (a, of_nat n, \<lparr>stdin = inp, trace = tr\<rparr>) = Inl (OutOfBounds 100)"
proof (induction inp arbitrary: a n tr)
  case Nil
  then have "n = 100" by simp
  then show ?case using read_loop_full by simp
next
  case (Cons b bs)
  show ?case
  proof (cases "n = 100")
    case True
    then show ?thesis using read_loop_full by simp
  next
    case False
    with Cons.prems have n: "n < 100" by simp
    with Cons.prems have nb: "\<not> ends_line b" by (auto split: if_splits)
    with Cons.prems n have "Suc n \<le> 100" and "100 \<le> Suc n + length (line_read bs)"
      by simp_all
    with n nb Cons.IH [of "Suc n" "a(n := b)" "tr @ [Read (Some b)]"] show ?thesis
      by (simp add: read_loop_step del: fun_upd_apply)
  qed
qed

subsection \<open>The string in the cells\<close>

lemma fill_below: "k < n \<Longrightarrow> fill a n bs k = a k"
  by (induction bs arbitrary: a n) simp_all

lemma fill_last_upd: "(fill a n (bs @ [x]))(n + length bs := y) = fill a n (bs @ [y])"
proof (induction bs arbitrary: a n)
  case Nil
  show ?case by (simp del: fun_upd_apply)
next
  case (Cons b bs)
  show ?case using Cons.IH [of "a(n := b)" "Suc n"] by (simp del: fun_upd_apply)
qed

lemma c_string_fill:
  "n + length bs < 100 \<Longrightarrow>
   c_string (fill a n (bs @ [0])) n = Inr (takeWhile (\<lambda>b. b \<noteq> 0) bs)"
proof (induction bs arbitrary: a n)
  case Nil
  then show ?case by (subst c_string.simps) simp
next
  case (Cons b bs)
  let ?F = "fill (a(n := b)) (Suc n) (bs @ [0])"
  have "?F n = b" by (simp add: fill_below)
  moreover have "c_string ?F (Suc n) = Inr (takeWhile (\<lambda>b. b \<noteq> 0) bs)"
    using Cons.prems by (intro Cons.IH) simp
  moreover have "n < 100" using Cons.prems by simp
  ultimately show ?case
    by (subst c_string.simps) simp
qed

subsection \<open>The run of \<^verbatim>\<open>main\<close>\<close>

lemma main_read_run:
  assumes "length (line_read inp) < 100"
  shows "main_read garbage inp =
         Inr (fill garbage 0 (line_read inp @ [last_stored inp]), of_nat (length (line_read inp)),
              \<lparr>stdin = unread inp, trace = trace (main_prompt inp) @ reads inp\<rparr>)"
  using assms read_loop_run [of 0 inp garbage "trace (main_prompt inp)"]
  by (simp add: main_read_def main_prompt_def puts_def)

lemma main_read_overflow:
  assumes "100 \<le> length (line_read inp)"
  shows "main_read garbage inp = Inl (OutOfBounds 100)"
  using assms read_loop_overflow [of 0 inp garbage "trace (main_prompt inp)"]
  by (simp add: main_read_def main_prompt_def puts_def)

lemma main_terminated_run:
  assumes "length (line_read inp) < 100"
  shows "main_terminated garbage inp =
         Inr (fill garbage 0 (line_read inp @ [0]), of_nat (length (line_read inp)),
              \<lparr>stdin = unread inp, trace = trace (main_prompt inp) @ reads inp\<rparr>)"
  using assms fill_last_upd [of garbage 0 "line_read inp" "last_stored inp" 0]
  by (simp add: main_terminated_def main_read_run store_index del: fun_upd_apply)

lemma main_run:
  assumes "length (line_read inp) < 100"
  shows "main garbage inp =
         Inr \<lparr>stdin = unread inp,
              trace = trace (main_prompt inp) @ reads inp @
                [Wrote (bytes ''Hello, '' @ takeWhile (\<lambda>b. b \<noteq> 0) (line_read inp) @ bytes ''\<newline>'')]\<rparr>"
  using assms c_string_fill [of 0 "line_read inp" garbage]
  by (simp add: main_def main_terminated_run printf_def bytes_def)

lemma main_overflow:
  assumes "100 \<le> length (line_read inp)"
  shows "main garbage inp = Inl (OutOfBounds 100)"
  using assms by (simp add: main_def main_terminated_def main_read_overflow)

lemma main_cases:
  "main garbage inp =
     (if length (line_read inp) < 100
      then Inr \<lparr>stdin = unread inp,
              trace = trace (main_prompt inp) @ reads inp @
                [Wrote (bytes ''Hello, '' @ takeWhile (\<lambda>b. b \<noteq> 0) (line_read inp) @ bytes ''\<newline>'')]\<rparr>
      else Inl (OutOfBounds 100))"
  by (simp add: main_run main_overflow)

subsection \<open>The line read and the line of the specification\<close>

lemma line_read_no_stop: "b \<in> set (line_read inp) \<Longrightarrow> \<not> ends_line b"
  by (induction inp) (auto split: if_splits)

lemma line_read_first_line: "255 \<notin> set (first_line inp) \<Longrightarrow> line_read inp = first_line inp"
  by (induction inp) (auto simp: first_line_def ends_line_def)

lemma line_read_prefix: "line_read (line_prefix inp) = line_read inp"
  by (induction inp) (auto simp: line_prefix_def ends_line_def)

lemma written_reads: "concat (map written (reads inp)) = []"
  by (induction inp) simp_all

lemma reads_not_empty: "reads inp \<noteq> []"
  by (cases inp) simp_all

lemma last_reads: "last (reads inp) = Read (Some c) \<Longrightarrow> last_stored inp = c"
  by (induction inp) (auto simp: reads_not_empty split: if_splits)

lemma reads_no_line_end:
  "10 \<notin> set inp \<Longrightarrow> 255 \<notin> set inp \<Longrightarrow>
   line_read inp = inp \<and> unread inp = [] \<and> reads inp = map (\<lambda>b. Read (Some b)) inp @ [Read None]"
  by (induction inp) (auto simp: ends_line_def)

lemma fill_at_end: "fill a n (bs @ [x]) (n + length bs) = x"
proof (induction bs arbitrary: a n)
  case Nil
  show ?case by simp
next
  case (Cons b bs)
  show ?case using Cons.IH [of "a(n := b)" "Suc n"] by (simp del: fun_upd_apply)
qed

lemma main_stdout_cases:
  "main_stdout garbage inp =
     (if length (line_read inp) < 100
      then Inr (bytes ''What is your name?\<newline>\<newline>'' @ bytes ''Hello, '' @
                takeWhile (\<lambda>b. b \<noteq> 0) (line_read inp) @ bytes ''\<newline>'')
      else Inl (OutOfBounds 100))"
  by (simp add: main_stdout_def main_cases stdout_def written_reads main_prompt_def puts_def
      bytes_def)

lemma greeting_cases:
  "greeting (main garbage inp) =
     (if length (line_read inp) < 100
      then Some (bytes ''Hello, '' @ takeWhile (\<lambda>b. b \<noteq> 0) (line_read inp) @ bytes ''\<newline>'')
      else None)"
  by (simp add: greeting_def main_cases)

lemma line_read_append:
  "\<forall>b \<in> set xs. \<not> ends_line b \<Longrightarrow> line_read (xs @ ys) = xs @ line_read ys"
  by (induction xs) simp_all

subsection \<open>Facts about the run without the bounds test\<close>







text \<open>Where the run with the bounds test returns, the run without it returns the same.\<close>

lemma read_loop_unchecked_agrees:
  "read_loop s = Inr r \<Longrightarrow> read_loop_unchecked s = r"
proof (induction s rule: read_loop.induct)
  case (1 name i w)
  obtain c w' where g: "getchar w = (c, w')"
    by (cases "getchar w")
  from "1.prems" g have b: "in_bounds i"
    by (subst (asm) read_loop.simps) (simp add: store_def split: if_splits)
  then have st: "store name i (int_to_char c) = Inr (name(unat i := int_to_char c))"
    and ld: "load (name(unat i := int_to_char c)) i = Inr ((name(unat i := int_to_char c)) (unat i))"
    by (simp_all add: store_def load_def)
  show ?case
  proof (cases "char_to_int (int_to_char c) \<noteq> - 1 \<and>
      char_to_int ((name(unat i := int_to_char c)) (unat i)) \<noteq> 10")
    case True
    with "1.prems" g st ld have "read_loop (name(unat i := int_to_char c), i + 1, w') = Inr r"
      by (subst (asm) read_loop.simps) simp
    with True g st ld have "read_loop_unchecked (name(unat i := int_to_char c), i + 1, w') = r"
      by (intro "1.IH") (assumption | simp | blast)+
    with True g show ?thesis
      by (subst read_loop_unchecked.simps) simp
  next
    case False
    with "1.prems" g st ld have "r = (name(unat i := int_to_char c), i, w')"
      by (subst (asm) read_loop.simps) (auto split: if_splits)
    with False g show ?thesis
      by (subst read_loop_unchecked.simps) auto
  qed
qed

lemma c_string_unchecked_agrees:
  "c_string a k = Inr s \<Longrightarrow> c_string_unchecked a k = Some s"
proof (induction a k arbitrary: s rule: c_string.induct)
  case (1 a k)
  from "1.prems" have k: "\<not> 100 \<le> k"
    by (subst (asm) c_string.simps) (simp split: if_splits)
  show ?case
  proof (cases "a k = 0")
    case True
    with "1.prems" k have "s = []"
      by (subst (asm) c_string.simps) simp
    with True show ?thesis
      by (subst c_string_unchecked.simps) simp
  next
    case False
    with "1.prems" k obtain t where t: "c_string a (Suc k) = Inr t" "s = a k # t"
      by (subst (asm) c_string.simps) (auto split: sum.splits)
    with k False have "c_string_unchecked a (Suc k) = Some t"
      by (intro "1.IH") simp_all
    with False t show ?thesis
      by (subst c_string_unchecked.simps) simp
  qed
qed

lemma main_unchecked_agrees:
  assumes "main garbage inp = Inr w"
  shows "main_unchecked garbage inp = Some w"
proof -
  from assms obtain name i w' where t: "main_terminated garbage inp = Inr (name, i, w')"
    and p: "printf ''Hello, %s\<newline>'' name w' = Inr w"
    by (auto simp: main_def split: sum.splits prod.splits)
  from t obtain name0 where r: "main_read garbage inp = Inr (name0, i, w')"
    and s: "store name0 i 0 = Inr name"
    by (auto simp: main_terminated_def split: sum.splits prod.splits)
  from r have "read_loop_unchecked (garbage, 0, main_prompt inp) = (name0, i, w')"
    unfolding main_read_def by (rule read_loop_unchecked_agrees)
  moreover from s have "name = name0(unat i := 0)"
    by (simp add: store_def split: if_splits)
  moreover from p obtain str where "c_string name 0 = Inr str"
    and "w = w'\<lparr>trace := trace w' @ [Wrote (format ''Hello, %s\<newline>'' str)]\<rparr>"
    by (auto simp: printf_def split: sum.splits)
  ultimately show ?thesis
    using c_string_unchecked_agrees [of name 0 str]
    by (simp add: main_unchecked_def printf_unchecked_def)
qed

section \<open>The claims\<close>

text \<open>
  C1, as amended. The claim: the last write of every run is \<open>Hello, \<close>, the line (the
  bytes before the first newline or the end of input) and a newline. The theorem: when
  the line is shorter than 100 bytes and has no byte 255, the last write is
  \<open>Hello, \<close>, the line up to its first NUL byte (all of it when it has none) and a
  newline.
\<close>

theorem greeting_is_line_up_to_nul:
  assumes "length (first_line inp) < 100" and "255 \<notin> set (first_line inp)"
  shows "greeting (main garbage inp) =
         Some (bytes ''Hello, '' @ takeWhile (\<lambda>b. b \<noteq> 0) (first_line inp) @ bytes ''\<newline>'')"
  using assms by (simp add: greeting_cases line_read_first_line)

theorem greeting_is_line_up_to_nul_witness:
  "length (first_line (bytes ''Alice\<newline>'')) < 100 \<and>
   255 \<notin> set (first_line (bytes ''Alice\<newline>'')) \<and>
   greeting (main (\<lambda>k. 42) (bytes ''Alice\<newline>'')) = Some (bytes ''Hello, Alice\<newline>'')"
proof -
  have short: "length (first_line (bytes ''Alice\<newline>'')) < 100"
    by (simp add: first_line_def bytes_def)
  have plain: "255 \<notin> set (first_line (bytes ''Alice\<newline>''))"
    by (simp add: first_line_def bytes_def)
  show ?thesis
    using short plain greeting_is_line_up_to_nul [OF short plain, of "\<lambda>k. 42"]
    by (simp add: first_line_def bytes_def)
qed

text \<open>
  C1 as stated fails on the input \<open>A\<close>, NUL, \<open>B\<close>, newline: \<^verbatim>\<open>%s\<close> stops at the NUL
  and the greeting is \<open>Hello, A\<close>.
\<close>

theorem greeting_whole_line_counterexample:
  "greeting (main (\<lambda>k. 42) [65, 0, 66, 10]) = Some (bytes ''Hello, A\<newline>'') \<and>
   greeting (main (\<lambda>k. 42) [65, 0, 66, 10]) \<noteq>
     Some (bytes ''Hello, '' @ first_line [65, 0, 66, 10] @ bytes ''\<newline>'')"
  by (simp add: greeting_cases first_line_def bytes_def ends_line_def)

text \<open>
  C2. The claim: on every input, every store of the loop lands at an index below 100,
  the capacity of \<^verbatim>\<open>name\<close>. The loop has no such check: on an input of 101 bytes \<open>a\<close>
  it stores the last of them in \<^verbatim>\<open>name[100]\<close>, outside the 100 cells of the array.
\<close>

theorem store_past_the_array: "main_read garbage (replicate 101 97) = Inl (OutOfBounds 100)"
proof -
  have "line_read (replicate 101 97 @ []) = replicate 101 97 @ line_read []"
    by (rule line_read_append) (simp add: ends_line_def)
  then show ?thesis
    by (intro main_read_overflow) simp
qed

text \<open>
  C3. The claim: the loop stops reading at a newline or at the end of input, and at no
  other byte. The byte 255 is neither, and it stops the loop: stored in a \<^verbatim>\<open>char\<close> it
  compares equal to \<open>-1\<close>. On the input 255, \<open>A\<close>, newline the run reads one byte,
  leaves \<open>A\<close> and the newline unread, and greets the empty name.
\<close>

theorem byte_255_stops_the_loop:
  "main garbage [255, 65, 10] =
   Inr \<lparr>stdin = [65, 10],
        trace = [Wrote (bytes ''What is your name?\<newline>\<newline>''), Read (Some 255),
                 Wrote (bytes ''Hello, \<newline>'')]\<rparr>"
  by (simp add: main_cases main_prompt_def puts_def bytes_def ends_line_def)

text \<open>
  C4. Whenever the loop ends, line 13 stores the NUL in the cell the loop stopped at.
  The string that \<^verbatim>\<open>name\<close> then holds, the one passed to \<^verbatim>\<open>printf\<close>, is the line
  read up to its first NUL, and it has no newline in it; when the last read was a
  newline, the cell held that newline and now holds the NUL.
\<close>

theorem stored_line_excludes_newline:
  assumes "main_read garbage inp = Inr (name, i, w)"
  shows "main_terminated garbage inp = Inr (name(unat i := 0), i, w) \<and>
         c_string (name(unat i := 0)) 0 = Inr (takeWhile (\<lambda>b. b \<noteq> 0) (line_read inp)) \<and>
         10 \<notin> set (takeWhile (\<lambda>b. b \<noteq> 0) (line_read inp)) \<and>
         (last (trace w) = Read (Some 10) \<longrightarrow>
            name (unat i) = 10 \<and> (name(unat i := 0)) (unat i) = 0)"
proof -
  let ?L = "line_read inp"
  have short: "length ?L < 100"
  proof (rule ccontr)
    assume "\<not> length ?L < 100"
    then have "main_read garbage inp = Inl (OutOfBounds 100)"
      by (intro main_read_overflow) simp
    with assms show False by simp
  qed
  from assms main_read_run [OF short, of garbage]
  have name: "name = fill garbage 0 (?L @ [last_stored inp])"
    and i: "i = of_nat (length ?L)"
    and w: "w = \<lparr>stdin = unread inp, trace = trace (main_prompt inp) @ reads inp\<rparr>"
    by simp_all
  from short have u: "unat i = length ?L"
    by (simp add: i index_unat)
  have upd: "name(unat i := 0) = fill garbage 0 (?L @ [0])"
    using fill_last_upd [of garbage 0 ?L "last_stored inp" 0] by (simp add: name u)
  have "main_terminated garbage inp = Inr (name(unat i := 0), i, w)"
    unfolding upd using main_terminated_run [OF short, of garbage] by (simp add: i w)
  moreover have "c_string (name(unat i := 0)) 0 = Inr (takeWhile (\<lambda>b. b \<noteq> 0) ?L)"
    unfolding upd using short c_string_fill [of 0 ?L garbage] by simp
  moreover have "10 \<notin> set (takeWhile (\<lambda>b. b \<noteq> 0) ?L)"
    using line_read_no_stop [of 10 inp] by (auto simp: ends_line_def dest: set_takeWhileD)
  moreover have "name (unat i) = 10" if "last (trace w) = Read (Some 10)"
  proof -
    from that have "last (reads inp) = Read (Some 10)"
      by (simp add: w reads_not_empty)
    then have "last_stored inp = 10"
      by (rule last_reads)
    then show ?thesis
      using fill_at_end [of garbage 0 ?L "last_stored inp"] by (simp add: name u)
  qed
  ultimately show ?thesis by simp
qed

theorem stored_line_excludes_newline_witness:
  "main_read (\<lambda>k. 42) [65, 10] =
     Inr ((\<lambda>k. 42)(0 := 65, 1 := 10), 1,
          \<lparr>stdin = [],
           trace = [Wrote (bytes ''What is your name?\<newline>\<newline>''), Read (Some 65), Read (Some 10)]\<rparr>) \<and>
   main_terminated (\<lambda>k. 42) [65, 10] =
     Inr ((\<lambda>k. 42)(0 := 65, 1 := 0), 1,
          \<lparr>stdin = [],
           trace = [Wrote (bytes ''What is your name?\<newline>\<newline>''), Read (Some 65), Read (Some 10)]\<rparr>) \<and>
   c_string ((\<lambda>k. 42)(0 := 65, 1 := 0)) 0 = Inr [65] \<and>
   10 \<notin> set [65 :: byte] \<and>
   last [Wrote (bytes ''What is your name?\<newline>\<newline>''), Read (Some 65), Read (Some 10)] =
     Read (Some 10) \<and>
   ((\<lambda>k. 42)(0 := 65, 1 := 10)) 1 = (10 :: c_char)"
proof -
  have run: "main_read (\<lambda>k. 42) [65, 10] =
     Inr ((\<lambda>k. 42)(0 := 65, 1 := 10), 1,
          \<lparr>stdin = [],
           trace = [Wrote (bytes ''What is your name?\<newline>\<newline>''), Read (Some 65), Read (Some 10)]\<rparr>)"
    by (simp add: main_read_run ends_line_def main_prompt_def puts_def bytes_def
        del: fun_upd_apply)
  have stored: "main_terminated (\<lambda>k. 42) [65, 10] =
     Inr ((\<lambda>k. 42)(0 := 65, 1 := 0), 1,
          \<lparr>stdin = [],
           trace = [Wrote (bytes ''What is your name?\<newline>\<newline>''), Read (Some 65), Read (Some 10)]\<rparr>) \<and>
   c_string ((\<lambda>k. 42)(0 := 65, 1 := 0)) 0 = Inr [65] \<and>
   10 \<notin> set [65 :: byte]"
    using stored_line_excludes_newline [OF run]
    by (simp add: ends_line_def del: fun_upd_apply)
  have cell: "last [Wrote (bytes ''What is your name?\<newline>\<newline>''), Read (Some 65), Read (Some 10)] =
     Read (Some 10) \<and>
   ((\<lambda>k. 42)(0 := 65, 1 := 10)) 1 = (10 :: c_char)"
    by simp
  from run stored cell show ?thesis
    by (simp only: simp_thms)
qed

text \<open>
  C5. The claim: before any character is read the program writes \<open>What is your name?\<close>
  and one newline, once. On every input the write of line 11 is the first event of
  the run and nothing is read before it, but its bytes are \<open>What is your name?\<close> and
  two newlines: the string given to \<^verbatim>\<open>puts\<close> ends with a newline, as the format of
  line 14 does, and \<^verbatim>\<open>puts\<close> adds its own. On \<open>Alice\<close> and a newline, standard output
  has an empty line between the prompt and the greeting.
\<close>

theorem prompt_has_two_newlines:
  "stdin (main_prompt inp) = inp \<and>
   trace (main_prompt inp) = [Wrote (bytes ''What is your name?\<newline>\<newline>'')] \<and>
   stdout (main_prompt inp) \<noteq> bytes ''What is your name?\<newline>'' \<and>
   main_stdout garbage (bytes ''Alice\<newline>'') =
     Inr (bytes ''What is your name?\<newline>\<newline>Hello, Alice\<newline>'')"
  by (simp add: main_stdout_cases main_prompt_def puts_def stdout_def bytes_def ends_line_def)

text \<open>
  C6. The claim: on the empty input the name is empty, no error is raised and the
  output is the prompt line followed by exactly \<open>Hello, \<close> and a newline. The first
  \<^verbatim>\<open>getchar\<close> meets the end of input, the name stored is the empty string and \<^verbatim>\<open>main\<close>
  returns; but standard output is the prompt line, an empty line and then the
  greeting, by the second newline of line 11.
\<close>

theorem empty_input_has_empty_line:
  "main_terminated garbage [] =
     Inr (garbage(0 := 0), 0,
          \<lparr>stdin = [], trace = [Wrote (bytes ''What is your name?\<newline>\<newline>''), Read None]\<rparr>) \<and>
   c_string (garbage(0 := 0)) 0 = Inr [] \<and>
   main_stdout garbage [] = Inr (bytes ''What is your name?\<newline>\<newline>Hello, \<newline>'') \<and>
   main_stdout garbage [] \<noteq> Inr (bytes ''What is your name?\<newline>'' @ bytes ''Hello, \<newline>'')"
proof -
  have "main_terminated garbage [] =
     Inr (garbage(0 := 0), 0,
          \<lparr>stdin = [], trace = [Wrote (bytes ''What is your name?\<newline>\<newline>''), Read None]\<rparr>)"
    by (simp add: main_terminated_run main_prompt_def puts_def bytes_def del: fun_upd_apply)
  moreover have "c_string (garbage(0 := 0)) 0 = Inr []"
    by (subst c_string.simps) simp
  moreover have "main_stdout garbage [] = Inr (bytes ''What is your name?\<newline>\<newline>Hello, \<newline>'')"
    by (simp add: main_stdout_cases bytes_def)
  moreover have "main_stdout garbage [] \<noteq>
      Inr (bytes ''What is your name?\<newline>'' @ bytes ''Hello, \<newline>'')"
    by (simp add: main_stdout_cases bytes_def)
  ultimately show ?thesis by (simp only: simp_thms)
qed

text \<open>
  C7, as amended. The claim: on an input with no newline at its end the greeting holds
  every byte read before the end of input. The theorem: an input with no newline and
  no byte 255, shorter than 100 bytes, is read to its end, the next read meets the end
  of input, and the greeting holds the input up to its first NUL byte (all of it when
  it has none).
\<close>

theorem greeting_at_end_of_input:
  assumes "10 \<notin> set inp" and "255 \<notin> set inp" and "length inp < 100"
  shows "main garbage inp =
         Inr \<lparr>stdin = [],
              trace = Wrote (bytes ''What is your name?\<newline>\<newline>'') #
                map (\<lambda>b. Read (Some b)) inp @
                [Read None,
                 Wrote (bytes ''Hello, '' @ takeWhile (\<lambda>b. b \<noteq> 0) inp @ bytes ''\<newline>'')]\<rparr>"
  using assms reads_no_line_end [of inp]
  by (simp add: main_cases main_prompt_def puts_def bytes_def)

theorem greeting_at_end_of_input_witness:
  "10 \<notin> set (bytes ''Bob'') \<and> 255 \<notin> set (bytes ''Bob'') \<and> length (bytes ''Bob'') < 100 \<and>
   main (\<lambda>k. 42) (bytes ''Bob'') =
     Inr \<lparr>stdin = [],
          trace = [Wrote (bytes ''What is your name?\<newline>\<newline>''),
                   Read (Some 66), Read (Some 111), Read (Some 98), Read None,
                   Wrote (bytes ''Hello, Bob\<newline>'')]\<rparr>"
proof -
  have no_newline: "10 \<notin> set (bytes ''Bob'')"
    and no_255: "255 \<notin> set (bytes ''Bob'')"
    and short: "length (bytes ''Bob'') < 100"
    by (simp_all add: bytes_def)
  show ?thesis
    using no_newline no_255 short
      greeting_at_end_of_input [OF no_newline no_255 short, of "\<lambda>k. 42"]
    by (simp add: bytes_def)
qed

text \<open>
  C7 as stated fails on the input \<open>B\<close>, NUL, \<open>b\<close>, which has no newline: all three
  bytes are read before the end of input, and the greeting is \<open>Hello, B\<close>.
\<close>

theorem greeting_all_bytes_counterexample:
  "10 \<notin> set [66, 0, 98 :: byte] \<and>
   greeting (main (\<lambda>k. 42) [66, 0, 98]) = Some (bytes ''Hello, B\<newline>'') \<and>
   greeting (main (\<lambda>k. 42) [66, 0, 98]) \<noteq> Some (bytes ''Hello, '' @ [66, 0, 98] @ bytes ''\<newline>'')"
  by (simp add: greeting_cases bytes_def ends_line_def)

text \<open>
  C8. A run is a function of standard input alone: the one thing a run finds and did
  not read, the first contents of \<^verbatim>\<open>name\<close>, changes neither the result of \<^verbatim>\<open>main\<close> nor
  the bytes on standard output.
\<close>

theorem same_input_same_output:
  "main garbage1 inp = main garbage2 inp \<and> main_stdout garbage1 inp = main_stdout garbage2 inp"
  by (simp add: main_cases main_stdout_cases)


text \<open>
  C10. Two inputs with the same prefix up to and including the first newline (the
  whole input when it has none) give the same standard output, whatever follows the
  newline and whatever \<^verbatim>\<open>name\<close> held at first.
\<close>

theorem output_depends_on_line_prefix:
  assumes "line_prefix inp1 = line_prefix inp2"
  shows "main_stdout garbage1 inp1 = main_stdout garbage2 inp2"
proof -
  have "line_read inp1 = line_read (line_prefix inp1)"
    by (simp add: line_read_prefix)
  also have "\<dots> = line_read inp2"
    by (simp add: assms line_read_prefix)
  finally show ?thesis
    by (simp add: main_stdout_cases)
qed

theorem output_depends_on_line_prefix_witness:
  "line_prefix [65, 10, 66] = line_prefix [65, 10, 67, 68] \<and>
   main_stdout (\<lambda>k. 42) [65, 10, 66] = main_stdout (\<lambda>k. 7) [65, 10, 67, 68] \<and>
   main_stdout (\<lambda>k. 42) [65, 10, 66] = Inr (bytes ''What is your name?\<newline>\<newline>Hello, A\<newline>'')"
proof -
  have same: "line_prefix [65, 10, 66] = line_prefix [65, 10, 67, 68]"
    by (simp add: line_prefix_def)
  have out: "main_stdout (\<lambda>k. 42) [65, 10, 66] = Inr (bytes ''What is your name?\<newline>\<newline>Hello, A\<newline>'')"
    by (simp add: main_stdout_cases bytes_def ends_line_def)
  from same out output_depends_on_line_prefix [OF same, of "\<lambda>k. 42" "\<lambda>k. 7"] show ?thesis
    by (simp only: simp_thms)
qed

end
